theory Spec2Isabelle
  imports Main "HOL-Library.Word"
begin

unbundle bit_operations_syntax

section \<open>Go values\<close>

text \<open>
  The model is sequential: one call at a time. A call of a Go function either returns its
  results, or panics (a failed bounds check, a nil dereference, the package's own
  \<open>assert\<close>), or waits for ever in \<open>mu.Lock()\<close> because the mutex is held. A result list
  \<open>(T, error)\<close> is a pair whose second component is \<open>None\<close> for a nil error.
\<close>

type_synonym byte = "8 word"

datatype error = Error string

datatype 'a exec = Returns 'a | Panics | Blocks

fun and_then :: "'a exec \<Rightarrow> ('a \<Rightarrow> 'b exec) \<Rightarrow> 'b exec" where
  "and_then (Returns x) f = f x"
| "and_then Panics f = Panics"
| "and_then Blocks f = Blocks"

subsection \<open>Byte slices\<close>

text \<open>
  A \<open>[]byte\<close> is a window on a backing array: \<open>elems\<close> are the bytes \<open>s[0] .. s[len(s)-1]\<close>,
  \<open>spare\<close> the bytes of the backing array from \<open>len(s)\<close> up to \<open>cap(s)\<close>. An index expression
  \<open>s[i]\<close> is checked against the length, a slice expression \<open>s[lo:hi]\<close> against the capacity;
  either panics when the check fails. Nothing in the packages writes through a slice, so the
  sharing of the backing array is not visible and a slice carries its bytes. A byte-slice
  literal, as in the package's tests, has no spare capacity (\<open>datagram\<close>); the window
  \<open>buffer[:n]\<close> that \<open>LoadBalancer.ReadPacket\<close> returns on its 1500-byte buffer has.
\<close>

record bytes =
  elems :: "byte list"
  spare :: "byte list"

definition len :: "bytes \<Rightarrow> nat" where
  "len s = length (elems s)"

definition cap :: "bytes \<Rightarrow> nat" where
  "cap s = length (elems s) + length (spare s)"

definition datagram :: "byte list \<Rightarrow> bytes" where
  "datagram bs = \<lparr>elems = bs, spare = []\<rparr>"

definition index :: "bytes \<Rightarrow> nat \<Rightarrow> byte exec" where
  "index s i = (if i < len s then Returns (elems s ! i) else Panics)"

definition reslice :: "bytes \<Rightarrow> nat \<Rightarrow> nat \<Rightarrow> bytes exec" where
  "reslice s lo hi =
     (if lo \<le> hi \<and> hi \<le> cap s
      then Returns \<lparr>elems = take (hi - lo) (drop lo (elems s @ spare s)),
                    spare = drop hi (elems s @ spare s)\<rparr>
      else Panics)"

text \<open>\<open>binary.BigEndian.Uint32\<close> of the standard library: a bounds check on \<open>b[3]\<close>, then the
  four bytes combined, the first one the most significant.\<close>

definition BigEndian_Uint32 :: "bytes \<Rightarrow> 32 word exec" where
  "BigEndian_Uint32 b =
     and_then (index b 3) (\<lambda>_.
       Returns (ucast (elems b ! 3) OR push_bit 8 (ucast (elems b ! 2))
                OR push_bit 16 (ucast (elems b ! 1)) OR push_bit 24 (ucast (elems b ! 0))))"

section \<open>Package packet: headers\<close>

type_synonym PacketType = "8 word"

definition Initial :: PacketType where "Initial = 0x00"
definition ZeroRTT :: PacketType where "ZeroRTT = 0x01"
definition HandShake :: PacketType where "HandShake = 0x02"
definition Retry :: PacketType where "Retry = 0x03"
definition OneRTT :: PacketType where "OneRTT = 0x04"

record LongHeader =
  HeaderForm :: byte
  LongPacketType :: PacketType
  TypeSpecific :: byte
  Version :: "32 word"
  DCIDLength :: byte
  DCID :: bytes
  SCIDLength :: byte
  SCID :: bytes

record ShortHeader =
  HeaderForm :: byte
  ReservedBits :: byte
  KeyPhase :: byte
  PacketNumberLength :: byte
  DCID :: bytes
  PacketNumber :: "64 word"

text \<open>The interface \<open>QuicHeader\<close> holds a \<open>*LongHeader\<close> or a \<open>*ShortHeader\<close>. Headers are
  allocated by the parser with \<open>&LongHeader{}\<close> and \<open>&ShortHeader{}\<close> and never written
  after they are returned, so a pointer to a header is modelled by the header.\<close>

datatype QuicHeader = LongHdr LongHeader | ShortHdr ShortHeader

definition LongHeader_GetCID :: "LongHeader \<Rightarrow> (bytes \<times> error option) exec" where
  "LongHeader_GetCID lh = Returns (LongHeader.DCID lh, None)"

definition LongHeader_GetPacketType :: "LongHeader \<Rightarrow> (PacketType \<times> error option) exec" where
  "LongHeader_GetPacketType lh = Returns (LongPacketType lh, None)"

definition LongHeader_GetHeaderForm :: "LongHeader \<Rightarrow> (byte \<times> error option) exec" where
  "LongHeader_GetHeaderForm lh = Returns (LongHeader.HeaderForm lh, None)"

definition ShortHeader_GetCID :: "ShortHeader \<Rightarrow> (bytes \<times> error option) exec" where
  "ShortHeader_GetCID sh = Returns (ShortHeader.DCID sh, None)"

definition ShortHeader_GetPacketType :: "ShortHeader \<Rightarrow> (PacketType \<times> error option) exec" where
  "ShortHeader_GetPacketType sh = Returns (OneRTT, None)"

definition ShortHeader_GetHeaderForm :: "ShortHeader \<Rightarrow> (byte \<times> error option) exec" where
  "ShortHeader_GetHeaderForm sh = Returns (ShortHeader.HeaderForm sh, None)"

text \<open>A method call through the interface goes to the method of the header it holds.\<close>

fun GetCID :: "QuicHeader \<Rightarrow> (bytes \<times> error option) exec" where
  "GetCID (LongHdr lh) = LongHeader_GetCID lh"
| "GetCID (ShortHdr sh) = ShortHeader_GetCID sh"

fun GetPacketType :: "QuicHeader \<Rightarrow> (PacketType \<times> error option) exec" where
  "GetPacketType (LongHdr lh) = LongHeader_GetPacketType lh"
| "GetPacketType (ShortHdr sh) = ShortHeader_GetPacketType sh"

fun GetHeaderForm :: "QuicHeader \<Rightarrow> (byte \<times> error option) exec" where
  "GetHeaderForm (LongHdr lh) = LongHeader_GetHeaderForm lh"
| "GetHeaderForm (ShortHdr sh) = ShortHeader_GetHeaderForm sh"

section \<open>Package packet: the parser\<close>

record PacketProcessor =
  DCIDLength :: byte

definition assert :: "bool \<Rightarrow> unit exec" where
  "assert condition = (if \<not> condition then Panics else Returns ())"

text \<open>The sums \<open>6+header.DCIDLength\<close> and \<open>6+header.DCIDLength+1+header.SCIDLength\<close> are
  sums of \<open>uint8\<close> values: they wrap at 256 before they are used as slice bounds.\<close>

definition parseLongHeader ::
  "PacketProcessor \<Rightarrow> bytes \<Rightarrow> (LongHeader \<times> error option) exec" where
  "parseLongHeader p packet =
     and_then (index packet 0) (\<lambda>b0.
     and_then (index packet 0) (\<lambda>b0'.
     and_then (reslice packet 1 5) (\<lambda>v.
     and_then (BigEndian_Uint32 v) (\<lambda>version.
     and_then (index packet 5) (\<lambda>dcidLength.
     and_then (reslice packet 6 (unat (6 + dcidLength))) (\<lambda>dcid.
     and_then (index packet (unat (6 + dcidLength))) (\<lambda>scidLength.
     and_then (reslice packet (unat (6 + dcidLength + 1))
                              (unat (6 + dcidLength + 1 + scidLength))) (\<lambda>scid.
     Returns (\<lparr>LongHeader.HeaderForm = 1,
               LongPacketType = drop_bit 4 b0 AND 0x1,
               TypeSpecific = b0' AND 0x0F,
               Version = version,
               LongHeader.DCIDLength = dcidLength,
               LongHeader.DCID = dcid,
               SCIDLength = scidLength,
               SCID = scid\<rparr>, None)))))))))"

definition parseShortHeader ::
  "PacketProcessor \<Rightarrow> bytes \<Rightarrow> (ShortHeader \<times> error option) exec" where
  "parseShortHeader p packet =
     and_then (index packet 0) (\<lambda>b0.
     and_then (index packet 0) (\<lambda>b0'.
     and_then (index packet 0) (\<lambda>b0''.
     and_then (reslice packet 1 (unat (1 + PacketProcessor.DCIDLength p))) (\<lambda>dcid.
     Returns (\<lparr>ShortHeader.HeaderForm = 0,
               ReservedBits = drop_bit 3 b0 AND 0x3,
               KeyPhase = drop_bit 2 b0' AND 0x1,
               PacketNumberLength = b0'' AND 0x3,
               ShortHeader.DCID = dcid,
               PacketNumber = 0\<rparr>, None)))))"

definition ParsePacket ::
  "PacketProcessor \<Rightarrow> bytes \<Rightarrow> (QuicHeader \<times> error option) exec" where
  "ParsePacket p packet =
     and_then (index packet 0) (\<lambda>firstByte.
     let headerForm = drop_bit 7 firstByte in
     and_then (assert (headerForm AND 0x1 = 1 \<or> headerForm AND 0x1 = 0)) (\<lambda>_.
     if headerForm = 1
     then and_then (parseLongHeader p packet) (\<lambda>(header, err). Returns (LongHdr header, err))
     else and_then (parseShortHeader p packet) (\<lambda>(header, err). Returns (ShortHdr header, err))))"

section \<open>Package lb\<close>

text \<open>
  The load balancer's socket comes from the operating system through package \<open>net\<close>, which is
  not part of the repository: \<open>net.ListenPacket\<close> and the listener's \<open>Close\<close> are parameters.
  A listener is a handle; the interface value \<open>net.PacketConn\<close> is \<open>None\<close> when nil.
  \<open>packetProcessor\<close> is a pointer to an interface value: \<open>None\<close> is the nil pointer,
  \<open>Some None\<close> a pointer to a nil interface. \<open>LoadBalancer.ExtractCID\<close> has no definition
  here: its body selects \<open>.HeaderParser\<close> on \<open>lb.packetProcessor\<close>, a pointer to an interface,
  which is not a valid Go selector, so the method has no behaviour to translate.
\<close>

datatype PacketConn = PacketConn nat

record net =
  ListenPacket :: "string \<Rightarrow> string \<Rightarrow> PacketConn option \<times> error option"
  Close :: "PacketConn \<Rightarrow> error option"

datatype HeaderParser = HeaderParser
  (HeaderParser_ParsePacket: "bytes \<Rightarrow> (QuicHeader option \<times> error option) exec")
  (HeaderParser_ClassifyPacket: "bytes \<Rightarrow> (PacketType \<times> error option) exec")
  (HeaderParser_ExtractCID: "bytes \<Rightarrow> (bytes option \<times> error option) exec")

text \<open>\<open>mu\<close> is held for the whole body of \<open>Start\<close> and of \<open>Shutdown\<close>: the field says whether
  the mutex is locked. \<open>Lock\<close> on a locked mutex does not return; the deferred \<open>Unlock\<close> runs
  on every return of the body.\<close>

record LoadBalancer =
  listenAddr :: string
  backends :: "string list"
  listener :: "PacketConn option"
  mu :: bool
  running :: bool
  packetProcessor :: "HeaderParser option option"

definition Lock :: "LoadBalancer \<Rightarrow> LoadBalancer exec" where
  "Lock lb = (if mu lb then Blocks else Returns (lb\<lparr>mu := True\<rparr>))"

definition Unlock :: "LoadBalancer \<Rightarrow> LoadBalancer" where
  "Unlock lb = lb\<lparr>mu := False\<rparr>"

definition InitLoadBalancer ::
  "string \<Rightarrow> string list \<Rightarrow> (LoadBalancer \<times> error option) exec" where
  "InitLoadBalancer la bs =
     Returns (\<lparr>listenAddr = la, backends = bs, listener = None, mu = False,
               running = False, packetProcessor = None\<rparr>, None)"

definition Start :: "net \<Rightarrow> LoadBalancer \<Rightarrow> (LoadBalancer \<times> error option) exec" where
  "Start n lb0 =
     and_then (Lock lb0) (\<lambda>lb.
     if running lb then Returns (Unlock lb, None)
     else case ListenPacket n ''udp'' (listenAddr lb) of
            (l, Some err) \<Rightarrow> Returns (Unlock lb, Some err)
          | (l, None) \<Rightarrow> Returns (Unlock (lb\<lparr>listener := l, running := True\<rparr>), None))"

definition Shutdown :: "net \<Rightarrow> LoadBalancer \<Rightarrow> (LoadBalancer \<times> error option) exec" where
  "Shutdown n lb0 =
     and_then (Lock lb0) (\<lambda>lb.
     if \<not> running lb then Returns (Unlock lb, None)
     else case listener lb of
            None \<Rightarrow> Panics
          | Some l \<Rightarrow>
              (case Close n l of
                 Some err \<Rightarrow> Returns (Unlock lb, Some err)
               | None \<Rightarrow> Returns (Unlock (lb\<lparr>running := False\<rparr>), None)))"

section \<open>Slices, bytes and the steps of a call\<close>

lemma index_in_range [simp]: "i < len s \<Longrightarrow> index s i = Returns (elems s ! i)"
  by (simp add: index_def)

lemma index_out_of_range [simp]: "len s \<le> i \<Longrightarrow> index s i = Panics"
  by (simp add: index_def)

lemma len_le_cap: "len s \<le> cap s"
  by (simp add: len_def cap_def)

lemma header_form_bit: "drop_bit 7 (b::byte) = 1 \<longleftrightarrow> bit b 7"
proof
  assume "drop_bit 7 b = 1"
  then have "bit (drop_bit 7 b) 0" by simp
  then show "bit b 7" by (simp add: bit_simps)
next
  assume h: "bit b 7"
  show "drop_bit 7 b = 1"
  proof (rule bit_eqI)
    fix n
    show "bit (drop_bit 7 b) n = bit (1::byte) n"
    proof (cases n)
      case 0
      then show ?thesis using h by (simp add: bit_simps)
    next
      case (Suc m)
      have "\<not> bit b (Suc m + 7)" using bit_imp_le_length [of b "Suc m + 7"] by auto
      then show ?thesis using Suc by (simp add: bit_simps)
    qed
  qed
qed

lemma assert_header_form: "assert ((x::byte) AND 0x1 = 1 \<or> x AND 0x1 = 0) = Returns ()"
proof -
  have "x AND 1 = 1 \<or> x AND 1 = 0"
    by (metis and_one_eq not_mod_2_eq_0_eq_1)
  then show ?thesis by (simp add: assert_def)
qed

lemma ParsePacket_empty: "len packet = 0 \<Longrightarrow> ParsePacket p packet = Panics"
  by (simp add: ParsePacket_def)

lemma ParsePacket_long:
  "0 < len packet \<Longrightarrow> bit (elems packet ! 0) 7 \<Longrightarrow>
   ParsePacket p packet =
     and_then (parseLongHeader p packet) (\<lambda>(header, err). Returns (LongHdr header, err))"
  by (simp add: ParsePacket_def Let_def assert_header_form header_form_bit)

lemma ParsePacket_short:
  "0 < len packet \<Longrightarrow> \<not> bit (elems packet ! 0) 7 \<Longrightarrow>
   ParsePacket p packet =
     and_then (parseShortHeader p packet) (\<lambda>(header, err). Returns (ShortHdr header, err))"
  by (simp add: ParsePacket_def Let_def assert_header_form header_form_bit)

lemma unat_byte_sum: "unat (a + b :: byte) = (unat a + unat b) mod 256"
  by (simp add: unat_word_ariths)

lemma BigEndian_Uint32_window:
  assumes "5 \<le> len packet"
  shows "and_then (reslice packet 1 5) (\<lambda>v. and_then (BigEndian_Uint32 v) f) =
     f (ucast (elems packet ! 4) OR push_bit 8 (ucast (elems packet ! 3))
        OR push_bit 16 (ucast (elems packet ! 2)) OR push_bit 24 (ucast (elems packet ! 1)))"
proof -
  define w where "w = take 4 (drop 1 (elems packet @ spare packet))"
  have k: "w ! k = elems packet ! (1 + k)" if "k < 4" for k
    using that assms by (simp add: w_def nth_append len_def)
  have w: "w ! 3 = elems packet ! 4" "w ! 2 = elems packet ! 3"
    "w ! 1 = elems packet ! 2" "w ! 0 = elems packet ! 1"
    using k [of 3] k [of 2] k [of 1] k [of 0] by (simp_all add: eval_nat_numeral)
  have l: "length w = 4"
    using assms by (simp add: w_def len_def)
  have r: "reslice packet 1 5 = Returns \<lparr>elems = w, spare = drop 5 (elems packet @ spare packet)\<rparr>"
    using assms by (simp add: reslice_def w_def cap_def len_def)
  have "BigEndian_Uint32 \<lparr>elems = w, spare = sp\<rparr> =
     Returns (ucast (w ! 3) OR push_bit 8 (ucast (w ! 2))
              OR push_bit 16 (ucast (w ! 1)) OR push_bit 24 (ucast (w ! 0)))" for sp
    by (simp add: BigEndian_Uint32_def index_def len_def l)
  then show ?thesis
    by (simp only: r and_then.simps w)
qed

text \<open>The value that \<open>BigEndian_Uint32_window\<close> returns is the big-endian reading of bytes
  1 to 4: bit \<open>n\<close> of the version is bit \<open>n mod 8\<close> of byte \<open>4 - n div 8\<close>.\<close>

lemma byte_bit_range: "bit (b::byte) n \<Longrightarrow> n < 8"
  using bit_imp_le_length [of b n] by simp

lemma big_endian_bits:
  fixes b1 b2 b3 b4 :: byte
  shows "bit (ucast b4 OR push_bit 8 (ucast b3) OR push_bit 16 (ucast b2)
              OR push_bit 24 (ucast b1) :: 32 word) n
     \<longleftrightarrow> (if n < 8 then bit b4 n else if n < 16 then bit b3 (n - 8)
          else if n < 24 then bit b2 (n - 16) else bit b1 (n - 24))"
  by (auto simp add: bit_simps dest: byte_bit_range)

lemma parseLongHeader_fits:
  assumes "6 < len packet"
    and "7 + unat (elems packet ! 5) + unat (elems packet ! (6 + unat (elems packet ! 5))) \<le> len packet"
    and "7 + unat (elems packet ! 5) + unat (elems packet ! (6 + unat (elems packet ! 5))) \<le> 255"
  shows "parseLongHeader p packet =
     Returns (\<lparr>LongHeader.HeaderForm = 1,
               LongPacketType = drop_bit 4 (elems packet ! 0) AND 0x1,
               TypeSpecific = elems packet ! 0 AND 0x0F,
               Version = ucast (elems packet ! 4) OR push_bit 8 (ucast (elems packet ! 3))
                   OR push_bit 16 (ucast (elems packet ! 2)) OR push_bit 24 (ucast (elems packet ! 1)),
               LongHeader.DCIDLength = elems packet ! 5,
               LongHeader.DCID = \<lparr>elems = take (unat (elems packet ! 5)) (drop 6 (elems packet)),
                   spare = drop (6 + unat (elems packet ! 5)) (elems packet @ spare packet)\<rparr>,
               SCIDLength = elems packet ! (6 + unat (elems packet ! 5)),
               SCID = \<lparr>elems = take (unat (elems packet ! (6 + unat (elems packet ! 5))))
                             (drop (7 + unat (elems packet ! 5)) (elems packet)),
                   spare = drop (7 + unat (elems packet ! 5) + unat (elems packet ! (6 + unat (elems packet ! 5))))
                             (elems packet @ spare packet)\<rparr>\<rparr>, None)"
proof -
  define D where "D = unat (elems packet ! 5)"
  define S where "S = unat (elems packet ! (6 + D))"
  have fits: "7 + D + S \<le> len packet" "7 + D + S \<le> 255"
    using assms by (simp_all add: D_def S_def)
  have u1: "unat (6 + elems packet ! 5) = 6 + D"
    using fits by (simp add: unat_byte_sum D_def)
  have u2: "unat (6 + elems packet ! 5 + 1) = 7 + D"
    using fits by (simp add: unat_byte_sum D_def)
  have u3: "unat (6 + elems packet ! 5 + 1 + elems packet ! (6 + D)) = 7 + D + S"
    using fits u2 unat_byte_sum [of "6 + elems packet ! 5 + 1" "elems packet ! (6 + D)"]
    by (simp add: S_def)
  have d: "reslice packet 6 (6 + D) =
      Returns \<lparr>elems = take D (drop 6 (elems packet)), spare = drop (6 + D) (elems packet @ spare packet)\<rparr>"
    using fits by (simp add: reslice_def len_def cap_def)
  have s: "reslice packet (7 + D) (7 + D + S) =
      Returns \<lparr>elems = take S (drop (7 + D) (elems packet)), spare = drop (7 + D + S) (elems packet @ spare packet)\<rparr>"
    using fits by (simp add: reslice_def len_def cap_def)
  have i: "index packet 0 = Returns (elems packet ! 0)" "index packet 5 = Returns (elems packet ! 5)"
    "index packet (6 + D) = Returns (elems packet ! (6 + D))"
    using fits by simp_all
  have v: "5 \<le> len packet" using fits by simp
  show ?thesis
    unfolding parseLongHeader_def D_def [symmetric] S_def [symmetric]
    by (simp only: i and_then.simps BigEndian_Uint32_window [OF v] u1 u2 u3 d s S_def [symmetric])
qed

lemma index_not_Blocks [simp]: "index s i \<noteq> Blocks"
  by (simp add: index_def)

lemma reslice_not_Blocks [simp]: "reslice s lo hi \<noteq> Blocks"
  by (simp add: reslice_def)

lemma BigEndian_Uint32_not_Blocks [simp]: "BigEndian_Uint32 b \<noteq> Blocks"
  by (simp add: BigEndian_Uint32_def index_def)

lemma and_then_Panics [simp]: "m \<noteq> Blocks \<Longrightarrow> and_then m (\<lambda>x. Panics) = Panics"
  by (cases m) simp_all

lemma parseLongHeader_eq:
  "parseLongHeader p packet =
     (if 5 < len packet
         \<and> 6 \<le> unat (6 + elems packet ! 5)
         \<and> unat (6 + elems packet ! 5) < len packet
         \<and> unat (6 + elems packet ! 5 + 1)
             \<le> unat (6 + elems packet ! 5 + 1 + elems packet ! unat (6 + elems packet ! 5))
         \<and> unat (6 + elems packet ! 5 + 1 + elems packet ! unat (6 + elems packet ! 5))
             \<le> cap packet
      then Returns (\<lparr>LongHeader.HeaderForm = 1,
               LongPacketType = drop_bit 4 (elems packet ! 0) AND 0x1,
               TypeSpecific = elems packet ! 0 AND 0x0F,
               Version = ucast (elems packet ! 4) OR push_bit 8 (ucast (elems packet ! 3))
                   OR push_bit 16 (ucast (elems packet ! 2)) OR push_bit 24 (ucast (elems packet ! 1)),
               LongHeader.DCIDLength = elems packet ! 5,
               LongHeader.DCID =
                 \<lparr>elems = take (unat (6 + elems packet ! 5) - 6) (drop 6 (elems packet @ spare packet)),
                  spare = drop (unat (6 + elems packet ! 5)) (elems packet @ spare packet)\<rparr>,
               SCIDLength = elems packet ! unat (6 + elems packet ! 5),
               SCID =
                 \<lparr>elems = take (unat (6 + elems packet ! 5 + 1 + elems packet ! unat (6 + elems packet ! 5))
                                - unat (6 + elems packet ! 5 + 1))
                             (drop (unat (6 + elems packet ! 5 + 1)) (elems packet @ spare packet)),
                  spare = drop (unat (6 + elems packet ! 5 + 1 + elems packet ! unat (6 + elems packet ! 5)))
                             (elems packet @ spare packet)\<rparr>\<rparr>, None)
      else Panics)"
proof (cases "5 < len packet")
  case False
  have "parseLongHeader p packet = Panics"
  proof (cases "0 < len packet")
    case True
    have "index packet 5 = Panics" using False by simp
    moreover have "index packet 0 = Returns (elems packet ! 0)" using True by simp
    ultimately show ?thesis
      unfolding parseLongHeader_def by simp
  next
    case False
    then show ?thesis by (simp add: parseLongHeader_def)
  qed
  then show ?thesis using False by simp
next
  case True
  then have v: "5 \<le> len packet" by simp
  have i: "index packet 0 = Returns (elems packet ! 0)" "index packet 5 = Returns (elems packet ! 5)"
    using True by simp_all
  have start: "parseLongHeader p packet =
     and_then (reslice packet 6 (unat (6 + elems packet ! 5))) (\<lambda>dcid.
     and_then (index packet (unat (6 + elems packet ! 5))) (\<lambda>scidLength.
     and_then (reslice packet (unat (6 + elems packet ! 5 + 1))
                              (unat (6 + elems packet ! 5 + 1 + scidLength))) (\<lambda>scid.
     Returns (\<lparr>LongHeader.HeaderForm = 1,
               LongPacketType = drop_bit 4 (elems packet ! 0) AND 0x1,
               TypeSpecific = elems packet ! 0 AND 0x0F,
               Version = ucast (elems packet ! 4) OR push_bit 8 (ucast (elems packet ! 3))
                   OR push_bit 16 (ucast (elems packet ! 2)) OR push_bit 24 (ucast (elems packet ! 1)),
               LongHeader.DCIDLength = elems packet ! 5,
               LongHeader.DCID = dcid,
               SCIDLength = scidLength,
               SCID = scid\<rparr>, None))))"
    unfolding parseLongHeader_def
    by (simp only: i and_then.simps BigEndian_Uint32_window [OF v])
  show ?thesis
    unfolding start using True len_le_cap [of packet]
    by (simp add: reslice_def index_def)
qed

lemma parseShortHeader_eq:
  "parseShortHeader p packet =
     (if 0 < len packet
         \<and> 1 \<le> unat (1 + PacketProcessor.DCIDLength p)
         \<and> unat (1 + PacketProcessor.DCIDLength p) \<le> cap packet
      then Returns (\<lparr>ShortHeader.HeaderForm = 0,
               ReservedBits = drop_bit 3 (elems packet ! 0) AND 0x3,
               KeyPhase = drop_bit 2 (elems packet ! 0) AND 0x1,
               PacketNumberLength = elems packet ! 0 AND 0x3,
               ShortHeader.DCID =
                 \<lparr>elems = take (unat (1 + PacketProcessor.DCIDLength p) - 1)
                             (drop 1 (elems packet @ spare packet)),
                  spare = drop (unat (1 + PacketProcessor.DCIDLength p))
                             (elems packet @ spare packet)\<rparr>,
               PacketNumber = 0\<rparr>, None)
      else Panics)"
  by (simp add: parseShortHeader_def reslice_def index_def)

lemma unat_Suc_byte: "L \<noteq> 255 \<Longrightarrow> unat (1 + L :: byte) = 1 + unat L"
proof -
  assume "L \<noteq> 255"
  then have "unat L \<noteq> 255"
    by (simp add: word_unat_eq_iff)
  moreover have "unat L < 256" using unsigned_less [of L] by simp
  ultimately show ?thesis by (simp add: unat_byte_sum)
qed

lemma unat_byte_less: "unat (b::byte) < 256"
  using unsigned_less [of b] by simp

section \<open>The packet type of a long header\<close>

text \<open>
  The type read by \<open>parseLongHeader\<close> is bit 4 of byte 0 alone, since the mask is \<open>0x1\<close>:
  whatever the datagram, a header that is returned is \<open>Initial\<close> or \<open>ZeroRTT\<close>, and the
  constants \<open>HandShake\<close> and \<open>Retry\<close> are never produced.
\<close>

lemma parseLongHeader_type_is_bit_4:
  assumes "parseLongHeader p packet = Returns (h, e)"
  shows "LongPacketType h = (if bit (elems packet ! 0) 4 then ZeroRTT else Initial)"
proof -
  have "drop_bit 4 (elems packet ! 0) AND 1 = (if bit (elems packet ! 0) 4 then 1 else 0)"
    by (simp add: and_one_eq bit_iff_odd_drop_bit mod2_eq_if)
  then show ?thesis
    using assms by (auto simp: parseLongHeader_eq ZeroRTT_def Initial_def split: if_splits)
qed

text \<open>
  C1: the packet type of a long header should be the two bits 4-5 of byte 0,
  \<open>(byte0 >> 4) & 0x3\<close>, with 2 for Handshake. On the datagram \<open>E0 00 00 00 01 00 00\<close>, whose
  bits 4-5 are \<open>10\<close>, the parser returns the type \<open>Initial\<close>, where the two bits give
  \<open>HandShake\<close>.
\<close>

theorem long_packet_type_drops_bit_5:
  "ParsePacket \<lparr>PacketProcessor.DCIDLength = 8\<rparr> (datagram [0xE0, 0, 0, 0, 1, 0, 0]) =
     Returns (LongHdr \<lparr>LongHeader.HeaderForm = 1, LongPacketType = Initial, TypeSpecific = 0,
                       Version = 1, LongHeader.DCIDLength = 0,
                       LongHeader.DCID = \<lparr>elems = [], spare = [0]\<rparr>,
                       SCIDLength = 0, SCID = \<lparr>elems = [], spare = []\<rparr>\<rparr>, None)
   \<and> drop_bit 4 (0xE0 :: byte) AND 0x3 = HandShake
   \<and> HandShake \<noteq> Initial"
  by (simp add: ParsePacket_def parseLongHeader_def index_def reslice_def len_def cap_def
      BigEndian_Uint32_def datagram_def assert_def Initial_def HandShake_def)

section \<open>Long headers that fit\<close>

text \<open>
  C4: a long-form datagram that holds its declared connection IDs should give back its
  destination CID, version and destination-CID length. The 256-byte datagram with an 8-byte
  destination CID and a 241-byte source CID holds both (7 + 8 + 241 bytes), but the
  \<open>uint8\<close> sum \<open>6+8+1+241\<close> wraps to 0, the slice expression \<open>packet[15:0]\<close> fails its
  bounds check and the parser panics. (\<open>parseLongHeader_fits\<close> above is what the parser
  recovers when the sum stays below 256.)
\<close>

theorem long_header_length_sum_wraps:
  "ParsePacket \<lparr>PacketProcessor.DCIDLength = 8\<rparr>
     (datagram ([0xC0, 0, 0, 0, 2, 8, 1, 2, 3, 4, 5, 6, 7, 8, 241] @ replicate 241 0x0A)) = Panics
   \<and> len (datagram ([0xC0, 0, 0, 0, 2, 8, 1, 2, 3, 4, 5, 6, 7, 8, 241] @ replicate 241 0x0A))
       = 7 + 8 + 241"
  by code_simp

text \<open>
  Below the wrap-around, a zero-length destination CID is no obstacle: a long-form datagram
  that declares one and holds its source CID of at most 248 bytes parses to a header with an
  empty destination CID.
\<close>

lemma zero_length_dcid_below_wrap:
  assumes "6 < len packet" and "bit (elems packet ! 0) 7" and "elems packet ! 5 = 0"
    and "7 + unat (elems packet ! 6) \<le> len packet" and "unat (elems packet ! 6) \<le> 248"
  shows "\<exists>h. ParsePacket p packet = Returns (LongHdr h, None)
           \<and> LongHeader.DCIDLength h = 0 \<and> elems (LongHeader.DCID h) = []"
proof -
  have "7 + unat (elems packet ! 5) + unat (elems packet ! (6 + unat (elems packet ! 5)))
          \<le> len packet"
    "7 + unat (elems packet ! 5) + unat (elems packet ! (6 + unat (elems packet ! 5))) \<le> 255"
    using assms by simp_all
  from parseLongHeader_fits [OF assms(1) this, of p] show ?thesis
    using assms by (simp add: ParsePacket_long)
qed

text \<open>
  C5: a long-form datagram that declares a destination CID of length zero should parse
  successfully and yield an empty CID. The 7-byte datagram \<open>C0 00 00 00 01 00 00\<close> of the
  scenario does: it parses to an \<open>Initial\<close> header of version 1 with empty destination and
  source CIDs. The 256-byte datagram \<open>C0 00 00 00 01 00 F9\<close> followed by 249 bytes also
  declares a zero-length destination CID and holds its whole source CID (7 + 0 + 249 bytes),
  but the \<open>uint8\<close> sum \<open>6+0+1+249\<close> wraps to 0, the slice expression \<open>packet[7:0]\<close> fails
  its bounds check and the parser panics.
\<close>

theorem zero_length_dcid_length_sum_wraps:
  "ParsePacket \<lparr>PacketProcessor.DCIDLength = 8\<rparr>
     (datagram ([0xC0, 0, 0, 0, 1, 0, 249] @ replicate 249 0x0A)) = Panics
   \<and> len (datagram ([0xC0, 0, 0, 0, 1, 0, 249] @ replicate 249 0x0A)) = 7 + 0 + 249
   \<and> elems (datagram ([0xC0, 0, 0, 0, 1, 0, 249] @ replicate 249 0x0A)) ! 5 = 0
   \<and> (\<exists>h. ParsePacket \<lparr>PacketProcessor.DCIDLength = 8\<rparr> (datagram [0xC0, 0, 0, 0, 1, 0, 0])
             = Returns (LongHdr h, None)
           \<and> LongPacketType h = Initial \<and> Version h = 1
           \<and> LongHeader.DCIDLength h = 0 \<and> elems (LongHeader.DCID h) = []
           \<and> SCIDLength h = 0 \<and> elems (SCID h) = [])"
proof -
  have wraps: "ParsePacket \<lparr>PacketProcessor.DCIDLength = 8\<rparr>
     (datagram ([0xC0, 0, 0, 0, 1, 0, 249] @ replicate 249 0x0A)) = Panics"
    by code_simp
  have complete: "len (datagram ([0xC0, 0, 0, 0, 1, 0, 249] @ replicate 249 0x0A)) = 7 + 0 + 249"
    "elems (datagram ([0xC0, 0, 0, 0, 1, 0, 249] @ replicate 249 0x0A)) ! 5 = 0"
    by (simp_all add: len_def datagram_def)
  have scenario: "\<exists>h. ParsePacket \<lparr>PacketProcessor.DCIDLength = 8\<rparr>
             (datagram [0xC0, 0, 0, 0, 1, 0, 0]) = Returns (LongHdr h, None)
           \<and> LongPacketType h = Initial \<and> Version h = 1
           \<and> LongHeader.DCIDLength h = 0 \<and> elems (LongHeader.DCID h) = []
           \<and> SCIDLength h = 0 \<and> elems (SCID h) = []"
    by (simp add: ParsePacket_def parseLongHeader_def index_def reslice_def len_def cap_def
      BigEndian_Uint32_def datagram_def assert_def Initial_def)
  from wraps complete scenario show ?thesis by (intro conjI)
qed

section \<open>Datagrams shorter than their header\<close>

text \<open>
  C2, as written: a long-form datagram shorter than its declared lengths require fails with
  a \<open>Truncated\<close> error and never panics. The 9-byte datagram that declares an 8-byte
  destination CID and holds 3 bytes of it panics in \<open>packet[6:14]\<close>.
\<close>

theorem truncated_long_header_panics:
  "ParsePacket \<lparr>PacketProcessor.DCIDLength = 8\<rparr> (datagram [0xC0, 0, 0, 0, 1, 8, 1, 2, 3])
     = Panics"
  by code_simp

text \<open>
  C2, as amended: for every long-form datagram shorter than its header requires (fewer than
  6 bytes, or, with a declared destination-CID length of at most 248, fewer than 7 bytes plus
  its declared destination- and source-CID lengths), parsing never returns an error: it
  panics on a failed bounds check, or, only when the packet slice has capacity beyond its
  length, returns a header with a nil error whose source CID runs past the end of the
  datagram into that capacity. On a slice without spare capacity it panics.
\<close>

theorem truncated_long_header_outcome:
  assumes "0 < len packet" and "bit (elems packet ! 0) 7"
    and "len packet < 6
         \<or> unat (elems packet ! 5) \<le> 248
           \<and> (len packet < 7 + unat (elems packet ! 5)
              \<or> len packet < 7 + unat (elems packet ! 5)
                               + unat (elems packet ! (6 + unat (elems packet ! 5))))"
  shows "(\<forall>h e. ParsePacket p packet \<noteq> Returns (h, Some e))
    \<and> (ParsePacket p packet = Panics
       \<or> (\<exists>h. ParsePacket p packet = Returns (LongHdr h, None)
              \<and> len packet < 7 + len (LongHeader.DCID h) + len (SCID h)
              \<and> 7 + len (LongHeader.DCID h) + len (SCID h) \<le> cap packet))
    \<and> (spare packet = [] \<longrightarrow> ParsePacket p packet = Panics)"
proof (cases "len packet < 6")
  case True
  then have "parseLongHeader p packet = Panics" by (simp add: parseLongHeader_eq)
  then show ?thesis using assms(1,2) by (simp add: ParsePacket_long)
next
  case False
  define D where "D = unat (elems packet ! 5)"
  define S where "S = unat (elems packet ! (6 + D))"
  have D: "D \<le> 248" and short: "len packet < 7 + D \<or> len packet < 7 + D + S"
    using assms(3) False by (auto simp: D_def S_def)
  have u1: "unat (6 + elems packet ! 5) = 6 + D"
    using D by (simp add: unat_byte_sum D_def)
  have u2: "unat (7 + elems packet ! 5) = 7 + D"
    using D by (simp add: unat_byte_sum D_def)
  define M where "M = unat (7 + elems packet ! 5 + elems packet ! (6 + D))"
  have M: "M = (7 + D + S) mod 256"
    using u2 unat_byte_sum [of "7 + elems packet ! 5" "elems packet ! (6 + D)"]
    by (simp add: S_def M_def)
  have S: "S < 256" using unat_byte_less by (simp add: S_def)
  have wrap: "M = 7 + D + S" if "7 + D \<le> M"
  proof (cases "7 + D + S < 256")
    case True
    then show ?thesis by (simp add: M)
  next
    case False
    then have "(7 + D + S) mod 256 = (7 + D + S - 256) mod 256"
      by (simp add: le_mod_geq)
    also have "\<dots> = 7 + D + S - 256"
      using S D by (intro mod_less) arith
    finally have "M < 7 + D" using S False by (simp add: M)
    with that show ?thesis by simp
  qed
  show ?thesis
  proof (cases "parseLongHeader p packet")
    case Panics
    then show ?thesis using assms(1,2) by (simp add: ParsePacket_long)
  next
    case Blocks
    then show ?thesis by (simp add: parseLongHeader_eq split: if_splits)
  next
    case (Returns r)
    obtain h e where r: "r = (h, e)" by (cases r)
    from Returns have c: "6 + D < len packet" "7 + D \<le> M" "M \<le> cap packet"
      by (simp_all add: parseLongHeader_eq u1 u2 M_def split: if_splits)
    from Returns have e: "e = None"
      by (simp add: parseLongHeader_eq r split: if_splits)
    from Returns have dcid: "LongHeader.DCID h =
        \<lparr>elems = take D (drop 6 (elems packet @ spare packet)),
         spare = drop (6 + D) (elems packet @ spare packet)\<rparr>"
      by (auto simp add: parseLongHeader_eq r u1 split: if_splits)
    from Returns have scid: "SCID h =
        \<lparr>elems = take (M - (7 + D)) (drop (7 + D) (elems packet @ spare packet)),
         spare = drop M (elems packet @ spare packet)\<rparr>"
      by (auto simp add: parseLongHeader_eq r u1 u2 M_def split: if_splits)
    have m: "M = 7 + D + S" using c wrap by simp
    have ld: "len (LongHeader.DCID h) = D"
      using c len_le_cap [of packet] by (simp add: dcid len_def cap_def)
    have ls: "len (SCID h) = S"
      using c m by (simp add: scid len_def cap_def)
    have past: "len packet < 7 + D + S" using short c by auto
    have "ParsePacket p packet = Returns (LongHdr h, None)"
      using assms(1,2) Returns by (simp add: ParsePacket_long r e)
    moreover have "spare packet \<noteq> []"
      using past c m by (auto simp: cap_def len_def)
    ultimately show ?thesis
      using past c m by (simp add: ld ls)
  qed
qed

theorem truncated_long_header_outcome_witness:
  "0 < len (datagram [0xC0, 0, 0, 0, 1, 0, 4, 9, 9])
   \<and> bit (elems (datagram [0xC0, 0, 0, 0, 1, 0, 4, 9, 9]) ! 0) 7
   \<and> unat (elems (datagram [0xC0, 0, 0, 0, 1, 0, 4, 9, 9]) ! 5) \<le> 248
   \<and> len (datagram [0xC0, 0, 0, 0, 1, 0, 4, 9, 9])
       < 7 + unat (elems (datagram [0xC0, 0, 0, 0, 1, 0, 4, 9, 9]) ! 5)
           + unat (elems (datagram [0xC0, 0, 0, 0, 1, 0, 4, 9, 9])
                     ! (6 + unat (elems (datagram [0xC0, 0, 0, 0, 1, 0, 4, 9, 9]) ! 5)))
   \<and> spare (datagram [0xC0, 0, 0, 0, 1, 0, 4, 9, 9]) = []
   \<and> ParsePacket \<lparr>PacketProcessor.DCIDLength = 8\<rparr> (datagram [0xC0, 0, 0, 0, 1, 0, 4, 9, 9])
       = Panics"
proof -
  have h: "0 < len (datagram [0xC0, 0, 0, 0, 1, 0, 4, 9, 9])"
    "bit (elems (datagram [0xC0, 0, 0, 0, 1, 0, 4, 9, 9]) ! 0) 7"
    "len (datagram [0xC0, 0, 0, 0, 1, 0, 4, 9, 9]) < 6
         \<or> unat (elems (datagram [0xC0, 0, 0, 0, 1, 0, 4, 9, 9]) ! 5) \<le> 248
           \<and> (len (datagram [0xC0, 0, 0, 0, 1, 0, 4, 9, 9])
                < 7 + unat (elems (datagram [0xC0, 0, 0, 0, 1, 0, 4, 9, 9]) ! 5)
              \<or> len (datagram [0xC0, 0, 0, 0, 1, 0, 4, 9, 9])
                  < 7 + unat (elems (datagram [0xC0, 0, 0, 0, 1, 0, 4, 9, 9]) ! 5)
                      + unat (elems (datagram [0xC0, 0, 0, 0, 1, 0, 4, 9, 9])
                           ! (6 + unat (elems (datagram [0xC0, 0, 0, 0, 1, 0, 4, 9, 9]) ! 5))))"
    by (simp_all add: len_def datagram_def)
  have s: "spare (datagram [0xC0, 0, 0, 0, 1, 0, 4, 9, 9]) = []"
    by (simp add: datagram_def)
  from truncated_long_header_outcome [OF h, of "\<lparr>PacketProcessor.DCIDLength = 8\<rparr>"] s
  have "ParsePacket \<lparr>PacketProcessor.DCIDLength = 8\<rparr> (datagram [0xC0, 0, 0, 0, 1, 0, 4, 9, 9])
       = Panics"
    by blast
  with h(1,2) s show ?thesis by (simp add: len_def datagram_def)
qed

text \<open>
  The other branch is taken: the 7-byte datagram \<open>C0 00 00 00 01 00 04\<close>, in a slice with
  four more bytes of capacity, declares a 4-byte source CID that it does not hold, and the
  parser returns the four bytes that follow the datagram in the backing array.
\<close>

lemma parseLongHeader_reads_spare:
  "parseLongHeader p \<lparr>elems = [0xC0, 0, 0, 0, 1, 0, 4], spare = [0xDE, 0xAD, 0xBE, 0xEF]\<rparr> =
     Returns (\<lparr>LongHeader.HeaderForm = 1, LongPacketType = 0, TypeSpecific = 0, Version = 1,
               LongHeader.DCIDLength = 0,
               LongHeader.DCID = \<lparr>elems = [], spare = [4, 0xDE, 0xAD, 0xBE, 0xEF]\<rparr>,
               SCIDLength = 4,
               SCID = \<lparr>elems = [0xDE, 0xAD, 0xBE, 0xEF], spare = []\<rparr>\<rparr>, None)"
  by (simp add: parseLongHeader_def index_def reslice_def len_def cap_def BigEndian_Uint32_def)


section \<open>Short headers\<close>

text \<open>
  C3, as written: with an expected CID length \<open>L\<close>, a short-form datagram shorter than
  \<open>1 + L\<close> fails with a \<open>Truncated\<close> error. The 9-byte short-form packet parsed with
  \<open>L = 9\<close> panics in \<open>packet[1:10]\<close>; no error is returned.
\<close>

theorem short_header_hint_9_panics:
  "ParsePacket \<lparr>PacketProcessor.DCIDLength = 9\<rparr> (datagram [0x40, 1, 2, 3, 4, 5, 6, 7, 8])
     = Panics"
  by code_simp

text \<open>
  C3, as amended: for every short-form datagram and every expected CID length \<open>L\<close> below 255,
  parsing panics on the bounds check of \<open>packet[1:1+L]\<close> if and only if the capacity of the
  packet slice (the datagram length, when the slice has no spare capacity) is less than
  \<open>1 + L\<close>, and otherwise succeeds with a nil error and a destination CID of exactly \<open>L\<close>
  bytes, the bytes that follow byte 0.
\<close>

theorem short_header_panics_iff:
  assumes "0 < len packet" and "\<not> bit (elems packet ! 0) 7"
    and "PacketProcessor.DCIDLength p \<noteq> 255"
  shows "(ParsePacket p packet = Panics \<longleftrightarrow> cap packet < 1 + unat (PacketProcessor.DCIDLength p))
    \<and> (1 + unat (PacketProcessor.DCIDLength p) \<le> cap packet \<longrightarrow>
         (\<exists>h. ParsePacket p packet = Returns (ShortHdr h, None)
              \<and> len (ShortHeader.DCID h) = unat (PacketProcessor.DCIDLength p)
              \<and> elems (ShortHeader.DCID h)
                  = take (unat (PacketProcessor.DCIDLength p))
                      (drop 1 (elems packet @ spare packet))))
    \<and> (spare packet = [] \<longrightarrow>
         (ParsePacket p packet = Panics
            \<longleftrightarrow> len packet < 1 + unat (PacketProcessor.DCIDLength p)))"
  using assms
  by (simp add: ParsePacket_short parseShortHeader_eq unat_Suc_byte len_def cap_def)

theorem short_header_panics_iff_witness:
  "0 < len (datagram [0x40, 1, 2, 3, 4, 5, 6, 7, 8])
   \<and> \<not> bit (elems (datagram [0x40, 1, 2, 3, 4, 5, 6, 7, 8]) ! 0) 7
   \<and> PacketProcessor.DCIDLength \<lparr>PacketProcessor.DCIDLength = 8\<rparr> \<noteq> 255
   \<and> 1 + unat (PacketProcessor.DCIDLength \<lparr>PacketProcessor.DCIDLength = 8\<rparr>)
       \<le> cap (datagram [0x40, 1, 2, 3, 4, 5, 6, 7, 8])
   \<and> spare (datagram [0x40, 1, 2, 3, 4, 5, 6, 7, 8]) = []
   \<and> ParsePacket \<lparr>PacketProcessor.DCIDLength = 8\<rparr> (datagram [0x40, 1, 2, 3, 4, 5, 6, 7, 8])
       \<noteq> Panics
   \<and> (\<exists>h. ParsePacket \<lparr>PacketProcessor.DCIDLength = 8\<rparr>
             (datagram [0x40, 1, 2, 3, 4, 5, 6, 7, 8]) = Returns (ShortHdr h, None)
          \<and> elems (ShortHeader.DCID h) = [1, 2, 3, 4, 5, 6, 7, 8])"
proof -
  have h: "0 < len (datagram [0x40, 1, 2, 3, 4, 5, 6, 7, 8])"
    "\<not> bit (elems (datagram [0x40, 1, 2, 3, 4, 5, 6, 7, 8]) ! 0) 7"
    "PacketProcessor.DCIDLength \<lparr>PacketProcessor.DCIDLength = 8\<rparr> \<noteq> 255"
    by (simp_all add: len_def datagram_def)
  show ?thesis
    using h short_header_panics_iff [OF h]
    by (auto simp add: cap_def datagram_def)
qed

text \<open>The three masks of \<open>parseShortHeader\<close>, bit by bit: bits 3-4, bit 2 and bits 0-1 of
  byte 0.\<close>

lemma reserved_bits_are_bits_3_4:
  "bit (drop_bit 3 (b::byte) AND 0x3) n \<longleftrightarrow> n < 2 \<and> bit b (3 + n)"
proof -
  have e: "(3::byte) = mask 2" by (simp add: mask_eq_exp_minus_1)
  show ?thesis
    by (subst e) (auto simp add: bit_and_iff bit_drop_bit_eq bit_mask_iff simp del: mask_numeral)
qed

lemma key_phase_is_bit_2:
  "bit (drop_bit 2 (b::byte) AND 0x1) n \<longleftrightarrow> n = 0 \<and> bit b 2"
  by (auto simp add: bit_simps numeral_2_eq_2)

lemma packet_number_length_is_bits_0_1:
  "bit ((b::byte) AND 0x3) n \<longleftrightarrow> n < 2 \<and> bit b n"
proof -
  have e: "(3::byte) = mask 2" by (simp add: mask_eq_exp_minus_1)
  show ?thesis
    by (subst e) (auto simp add: bit_and_iff bit_mask_iff simp del: mask_numeral)
qed

text \<open>
  C6: on a non-empty datagram the parser takes the short-form path exactly when bit 7 of
  byte 0 is clear, and a short-form datagram long enough for the expected CID (\<open>1 + L\<close>
  bytes, \<open>L\<close> below 255) parses to a header whose reserved bits are \<open>(byte0 >> 3) & 0x3\<close>,
  whose key phase is \<open>(byte0 >> 2) & 0x1\<close> and whose packet-number length is
  \<open>byte0 & 0x3\<close>; a short header is returned only when bit 7 is clear.
\<close>

theorem short_header_bit_fields:
  assumes "0 < len packet"
  shows "ParsePacket p packet =
      (if bit (elems packet ! 0) 7
       then and_then (parseLongHeader p packet) (\<lambda>(header, err). Returns (LongHdr header, err))
       else and_then (parseShortHeader p packet) (\<lambda>(header, err). Returns (ShortHdr header, err)))
    \<and> (\<not> bit (elems packet ! 0) 7 \<and> PacketProcessor.DCIDLength p \<noteq> 255
           \<and> 1 + unat (PacketProcessor.DCIDLength p) \<le> len packet \<longrightarrow>
         (\<exists>cid. ParsePacket p packet =
            Returns (ShortHdr \<lparr>ShortHeader.HeaderForm = 0,
                       ReservedBits = drop_bit 3 (elems packet ! 0) AND 0x3,
                       KeyPhase = drop_bit 2 (elems packet ! 0) AND 0x1,
                       PacketNumberLength = elems packet ! 0 AND 0x3,
                       ShortHeader.DCID = cid,
                       PacketNumber = 0\<rparr>, None)))
    \<and> ((\<exists>h e. ParsePacket p packet = Returns (ShortHdr h, e)) \<longrightarrow> \<not> bit (elems packet ! 0) 7)"
proof -
  have dispatch: "ParsePacket p packet =
      (if bit (elems packet ! 0) 7
       then and_then (parseLongHeader p packet) (\<lambda>(header, err). Returns (LongHdr header, err))
       else and_then (parseShortHeader p packet) (\<lambda>(header, err). Returns (ShortHdr header, err)))"
    using assms by (simp add: ParsePacket_long ParsePacket_short)
  have fields: "\<not> bit (elems packet ! 0) 7 \<and> PacketProcessor.DCIDLength p \<noteq> 255
           \<and> 1 + unat (PacketProcessor.DCIDLength p) \<le> len packet \<longrightarrow>
         (\<exists>cid. ParsePacket p packet =
            Returns (ShortHdr \<lparr>ShortHeader.HeaderForm = 0,
                       ReservedBits = drop_bit 3 (elems packet ! 0) AND 0x3,
                       KeyPhase = drop_bit 2 (elems packet ! 0) AND 0x1,
                       PacketNumberLength = elems packet ! 0 AND 0x3,
                       ShortHeader.DCID = cid,
                       PacketNumber = 0\<rparr>, None))"
    using assms len_le_cap [of packet]
    by (simp add: ParsePacket_short parseShortHeader_eq unat_Suc_byte)
  have only: "(\<exists>h e. ParsePacket p packet = Returns (ShortHdr h, e)) \<longrightarrow> \<not> bit (elems packet ! 0) 7"
  proof (cases "parseLongHeader p packet")
    case (Returns r)
    then show ?thesis using assms by (cases r) (auto simp: ParsePacket_long)
  qed (use assms in \<open>auto simp: ParsePacket_long\<close>)
  from dispatch fields only show ?thesis by blast
qed

theorem short_header_bit_fields_witness:
  "0 < len (datagram [0x5D, 1, 2, 3, 4, 5, 6, 7, 8])
   \<and> \<not> bit (elems (datagram [0x5D, 1, 2, 3, 4, 5, 6, 7, 8]) ! 0) 7
   \<and> PacketProcessor.DCIDLength \<lparr>PacketProcessor.DCIDLength = 8\<rparr> \<noteq> 255
   \<and> 1 + unat (PacketProcessor.DCIDLength \<lparr>PacketProcessor.DCIDLength = 8\<rparr>)
       \<le> len (datagram [0x5D, 1, 2, 3, 4, 5, 6, 7, 8])
   \<and> (\<exists>cid. ParsePacket \<lparr>PacketProcessor.DCIDLength = 8\<rparr>
               (datagram [0x5D, 1, 2, 3, 4, 5, 6, 7, 8]) =
            Returns (ShortHdr \<lparr>ShortHeader.HeaderForm = 0, ReservedBits = 3, KeyPhase = 1,
                       PacketNumberLength = 1, ShortHeader.DCID = cid, PacketNumber = 0\<rparr>, None))"
proof -
  have h: "0 < len (datagram [0x5D, 1, 2, 3, 4, 5, 6, 7, 8])"
    by (simp add: len_def datagram_def)
  have b: "\<not> bit (elems (datagram [0x5D, 1, 2, 3, 4, 5, 6, 7, 8]) ! 0) 7
   \<and> PacketProcessor.DCIDLength \<lparr>PacketProcessor.DCIDLength = 8\<rparr> \<noteq> 255
   \<and> 1 + unat (PacketProcessor.DCIDLength \<lparr>PacketProcessor.DCIDLength = 8\<rparr>)
       \<le> len (datagram [0x5D, 1, 2, 3, 4, 5, 6, 7, 8])"
    by (simp add: len_def datagram_def)
  have v: "drop_bit 3 (0x5D :: byte) AND 0x3 = 3" "drop_bit 2 (0x5D :: byte) AND 0x1 = 1"
    "(0x5D :: byte) AND 0x3 = 1"
    by simp_all
  from short_header_bit_fields [OF h, of "\<lparr>PacketProcessor.DCIDLength = 8\<rparr>"] b
  have "\<exists>cid. ParsePacket \<lparr>PacketProcessor.DCIDLength = 8\<rparr>
               (datagram [0x5D, 1, 2, 3, 4, 5, 6, 7, 8]) =
            Returns (ShortHdr \<lparr>ShortHeader.HeaderForm = 0,
               ReservedBits = drop_bit 3 (elems (datagram [0x5D, 1, 2, 3, 4, 5, 6, 7, 8]) ! 0) AND 0x3,
               KeyPhase = drop_bit 2 (elems (datagram [0x5D, 1, 2, 3, 4, 5, 6, 7, 8]) ! 0) AND 0x1,
               PacketNumberLength = elems (datagram [0x5D, 1, 2, 3, 4, 5, 6, 7, 8]) ! 0 AND 0x3,
               ShortHeader.DCID = cid, PacketNumber = 0\<rparr>, None)"
    by blast
  then have "\<exists>cid. ParsePacket \<lparr>PacketProcessor.DCIDLength = 8\<rparr>
               (datagram [0x5D, 1, 2, 3, 4, 5, 6, 7, 8]) =
            Returns (ShortHdr \<lparr>ShortHeader.HeaderForm = 0, ReservedBits = 3, KeyPhase = 1,
                       PacketNumberLength = 1, ShortHeader.DCID = cid, PacketNumber = 0\<rparr>, None)"
    by (simp add: datagram_def v)
  with h b show ?thesis by blast
qed

section \<open>Every datagram\<close>

text \<open>
  C7, as written: \<open>ParsePacket\<close> never panics, and every parse failure is a typed error.
  On the empty datagram it panics in \<open>packet[0]\<close>.
\<close>

theorem empty_datagram_panics:
  "ParsePacket \<lparr>PacketProcessor.DCIDLength = 8\<rparr> (datagram []) = Panics"
  by code_simp

text \<open>
  C7, as amended: \<open>ParsePacket\<close> never returns an error. For every datagram it either returns
  a header with a nil error or panics on a failed bounds check, which it does on every empty
  datagram; the \<open>assert\<close> on the header form never fails.
\<close>

theorem parse_packet_returns_or_panics:
  "(ParsePacket p packet = Panics \<or> (\<exists>h. ParsePacket p packet = Returns (h, None)))
   \<and> ParsePacket p \<lparr>elems = [], spare = sp\<rparr> = Panics
   \<and> assert (drop_bit 7 (b::byte) AND 0x1 = 1 \<or> drop_bit 7 b AND 0x1 = 0) = Returns ()"
proof -
  have "ParsePacket p packet = Panics \<or> (\<exists>h. ParsePacket p packet = Returns (h, None))"
  proof (cases "0 < len packet")
    case False
    then show ?thesis by (simp add: ParsePacket_empty)
  next
    case True
    then show ?thesis
      by (cases "bit (elems packet ! 0) 7")
         (simp_all add: ParsePacket_long ParsePacket_short parseLongHeader_eq parseShortHeader_eq)
  qed
  moreover have "ParsePacket p \<lparr>elems = [], spare = sp\<rparr> = Panics"
    by (simp add: ParsePacket_empty len_def)
  ultimately show ?thesis
    using assert_header_form [of "drop_bit 7 b"] by simp
qed

section \<open>Header accessors\<close>

text \<open>
  C9: every accessor of the \<open>QuicHeader\<close> interface, on a long header and on a short header,
  returns its field with a nil error, the same through the interface; the packet type of a
  short header is the constant \<open>OneRTT\<close>, whatever the header holds.
\<close>

theorem accessors_return_nil_error:
  "LongHeader_GetCID lh = Returns (LongHeader.DCID lh, None)
   \<and> LongHeader_GetPacketType lh = Returns (LongPacketType lh, None)
   \<and> LongHeader_GetHeaderForm lh = Returns (LongHeader.HeaderForm lh, None)
   \<and> ShortHeader_GetCID sh = Returns (ShortHeader.DCID sh, None)
   \<and> ShortHeader_GetPacketType sh = Returns (OneRTT, None)
   \<and> ShortHeader_GetHeaderForm sh = Returns (ShortHeader.HeaderForm sh, None)
   \<and> (\<exists>cid. GetCID h = Returns (cid, None))
   \<and> (\<exists>t. GetPacketType h = Returns (t, None))
   \<and> (\<exists>f. GetHeaderForm h = Returns (f, None))"
  by (cases h)
     (simp_all add: LongHeader_GetCID_def LongHeader_GetPacketType_def
        LongHeader_GetHeaderForm_def ShortHeader_GetCID_def ShortHeader_GetPacketType_def
        ShortHeader_GetHeaderForm_def)

section \<open>The load balancer\<close>

text \<open>
  C8: \<open>Start\<close> on a load balancer that is already running, and \<open>Shutdown\<close> on one that is
  not running, return a nil error and leave every field as it was (the mutex, free at the
  call, is free again at the return); neither \<open>net.ListenPacket\<close> nor \<open>Close\<close> has any say.
\<close>

theorem start_shutdown_idempotent:
  "(running lb \<and> \<not> mu lb \<longrightarrow> Start n lb = Returns (lb, None))
   \<and> (\<not> running lb' \<and> \<not> mu lb' \<longrightarrow> Shutdown n lb' = Returns (lb', None))"
  by (simp add: Start_def Shutdown_def Lock_def Unlock_def)

theorem start_shutdown_idempotent_witness:
  "(let n = \<lparr>ListenPacket = (\<lambda>network address. (None, Some (Error ''address in use''))),
             Close = (\<lambda>l. Some (Error ''closed''))\<rparr>;
        lb = \<lparr>listenAddr = '':8080'', backends = [''backend1'', ''backend2''],
              listener = Some (PacketConn 3), mu = False, running = True,
              packetProcessor = None\<rparr>;
        lb' = \<lparr>listenAddr = '':8080'', backends = [''backend1'', ''backend2''],
               listener = None, mu = False, running = False, packetProcessor = None\<rparr>
    in (running lb \<and> \<not> mu lb) \<and> Start n lb = Returns (lb, None)
       \<and> (\<not> running lb' \<and> \<not> mu lb') \<and> Shutdown n lb' = Returns (lb', None))"
  using start_shutdown_idempotent
    [of "\<lparr>listenAddr = '':8080'', backends = [''backend1'', ''backend2''],
          listener = Some (PacketConn 3), mu = False, running = True,
          packetProcessor = None\<rparr>"
        "\<lparr>ListenPacket = (\<lambda>network address. (None, Some (Error ''address in use''))),
          Close = (\<lambda>l. Some (Error ''closed''))\<rparr>"
        "\<lparr>listenAddr = '':8080'', backends = [''backend1'', ''backend2''],
          listener = None, mu = False, running = False, packetProcessor = None\<rparr>"]
  by (simp add: Let_def)

text \<open>
  What \<open>InitLoadBalancer\<close> returns, for every listen address and backend list: a nil error
  and a load balancer that is not running, has no listener and has a nil \<open>packetProcessor\<close>.
\<close>

lemma InitLoadBalancer_nil_packetProcessor:
  "\<exists>lb. InitLoadBalancer la bs = Returns (lb, None)
        \<and> listenAddr lb = la \<and> backends lb = bs
        \<and> listener lb = None \<and> \<not> running lb \<and> packetProcessor lb = None"
  by (simp add: InitLoadBalancer_def)

end
